theory Spec2Isabelle
  imports Complex_Main
begin

section \<open>Kex: tokens, values and errors\<close>

text \<open>
  The development follows the single-file program \<^verbatim>\<open>src/kex_main.py\<close>: its
  \<^verbatim>\<open>Lexer\<close>, \<^verbatim>\<open>Parser\<close>, \<^verbatim>\<open>SymbolTable\<close> and \<^verbatim>\<open>Interpreter\<close> classes.
  The package under \<^verbatim>\<open>src/Kex\<close> is a second, divergent copy of the same classes; where a
  property is also stated of that copy, its function is embedded under a name that starts
  with \<^verbatim>\<open>Kex_\<close>.
\<close>

datatype TokenType =
    INTEGER | FLOAT | STRING | BOOLEAN | IDENTIFIER | ASSIGN | PLUS | MINUS | MUL | DIV
  | LPAREN | RPAREN | LBRACKET | RBRACKET | LBRACE | RBRACE | COMMA | COLON | EOF

text \<open>
  Python values that the program computes with. A Python \<^verbatim>\<open>float\<close> is held as the real
  number it denotes: rounding to binary64 and overflow are not part of the model, only which
  results are floats and which are integers. A Python \<^verbatim>\<open>dict\<close> is an association list in
  insertion order.
\<close>

datatype pyval =
    PyNone
  | PyBool bool
  | PyInt int
  | PyFloat real
  | PyStr string
  | PyList "pyval list"
  | PyDict "(pyval \<times> pyval) list"

text \<open>\<^verbatim>\<open>class Token\<close>: type, value, line, column.\<close>

record Token =
  tok_type :: TokenType
  tok_value :: pyval
  tok_line :: int
  tok_column :: int

text \<open>
  Every \<^verbatim>\<open>raise\<close> of the program, and every exception Python itself raises on the paths
  modelled, is a constructor:
  \<^item> \<^verbatim>\<open>Exception('Invalid character: c at line l, column k')\<close>,
  \<^item> \<^verbatim>\<open>Exception('Unterminated string at line l, column k')\<close>,
  \<^item> the \<^verbatim>\<open>ValueError\<close> of \<^verbatim>\<open>int(result)\<close> and \<^verbatim>\<open>float(result)\<close>, with the text refused,
  \<^item> \<^verbatim>\<open>Exception('Invalid syntax')\<close> of \<^verbatim>\<open>Parser.error\<close>,
  \<^item> the \<^verbatim>\<open>AttributeError\<close> of \<^verbatim>\<open>key.value\<close> on a node that has no \<^verbatim>\<open>value\<close>,
  \<^item> \<^verbatim>\<open>Exception('No visit_X method')\<close> of \<^verbatim>\<open>generic_visit\<close>, with the class name,
  \<^item> \<^verbatim>\<open>ZeroDivisionError\<close>, \<^verbatim>\<open>TypeError\<close> (operator text and the two type names) and
    \<^verbatim>\<open>NameError\<close> of the interpreter.
\<close>

datatype error =
    InvalidCharacter char int int
  | UnterminatedString int nat
  | ValueError string
  | InvalidSyntax
  | AttributeError
  | NoVisitMethod string
  | ZeroDivisionError
  | TypeError pyval string string
  | NameError pyval

section \<open>Lexer\<close>

text \<open>
  \<^verbatim>\<open>class Lexer\<close>. The field \<^verbatim>\<open>current_char\<close> is written only together with \<^verbatim>\<open>pos\<close>
  (in \<^verbatim>\<open>__init__\<close>, \<^verbatim>\<open>advance\<close> and the reset in \<^verbatim>\<open>main\<close>), always as
  \<^verbatim>\<open>text[pos] if pos < len(text) else None\<close>, so the model computes it from \<^verbatim>\<open>text\<close> and
  \<^verbatim>\<open>pos\<close>.
\<close>

record Lexer =
  lex_text :: string
  lex_pos :: nat
  lex_line :: int
  lex_column :: int

definition Lexer_init :: "string \<Rightarrow> Lexer" where
  "Lexer_init t = \<lparr>lex_text = t, lex_pos = 0, lex_line = 1, lex_column = 1\<rparr>"

definition current_char :: "Lexer \<Rightarrow> char option" where
  "current_char L =
     (if lex_pos L < length (lex_text L) then Some (lex_text L ! lex_pos L) else None)"

definition advance :: "Lexer \<Rightarrow> Lexer" where
  "advance L =
     (if current_char L = Some (CHR 0x0A)
      then L\<lparr>lex_pos := lex_pos L + 1, lex_line := lex_line L + 1, lex_column := 1\<rparr>
      else L\<lparr>lex_pos := lex_pos L + 1, lex_column := lex_column L + 1\<rparr>)"

definition peek :: "Lexer \<Rightarrow> char option" where
  "peek L =
     (if lex_pos L + 1 < length (lex_text L) then Some (lex_text L ! (lex_pos L + 1)) else None)"

text \<open>
  The character classes of \<^verbatim>\<open>str.isspace\<close>, \<^verbatim>\<open>str.isdigit\<close>, \<^verbatim>\<open>str.isalpha\<close> and
  \<^verbatim>\<open>str.isalnum\<close>, on ASCII text: a character outside ASCII belongs to none of them here.
\<close>

definition isspace :: "char \<Rightarrow> bool" where
  "isspace c = (c \<in> set [CHR '' '', CHR 0x09, CHR 0x0A, CHR 0x0B, CHR 0x0C, CHR 0x0D,
                          CHR 0x1C, CHR 0x1D, CHR 0x1E, CHR 0x1F])"

definition isdigit :: "char \<Rightarrow> bool" where
  "isdigit c = (c \<in> set ''0123456789'')"

definition isalpha :: "char \<Rightarrow> bool" where
  "isalpha c = (c \<in> set ''abcdefghijklmnopqrstuvwxyzABCDEFGHIJKLMNOPQRSTUVWXYZ'')"

definition isalnum :: "char \<Rightarrow> bool" where
  "isalnum c = (isalpha c \<or> isdigit c)"

text \<open>
  The loop shared by \<^verbatim>\<open>skip_whitespace\<close>, \<^verbatim>\<open>number\<close>, \<^verbatim>\<open>string\<close>, \<^verbatim>\<open>identifier\<close> and the
  line comment:
  \<^verbatim>\<open>while self.current_char is not None and p(self.current_char):
      result += self.current_char; self.advance()\<close>
  It returns the characters appended to \<^verbatim>\<open>result\<close> and the lexer it leaves.
\<close>

function consume_while :: "(char \<Rightarrow> bool) \<Rightarrow> Lexer \<Rightarrow> string \<Rightarrow> string \<times> Lexer" where
  "consume_while p L result =
     (case current_char L of
        None \<Rightarrow> (result, L)
      | Some c \<Rightarrow> if p c then consume_while p (advance L) (result @ [c]) else (result, L))"
  by pat_completeness auto
termination
  by (relation "measure (\<lambda>(p, L, r). length (lex_text L) - lex_pos L)")
     (auto simp: current_char_def advance_def split: if_splits)

declare consume_while.simps [simp del]

definition skip_whitespace :: "Lexer \<Rightarrow> Lexer" where
  "skip_whitespace L = snd (consume_while isspace L [])"

text \<open>
  The block comment loop of \<^verbatim>\<open>skip_comment\<close>:
  \<^verbatim>\<open>while self.current_char is not None:
      if self.current_char == '*' and self.peek() == '/':
          self.advance(); self.advance(); break
      self.advance()\<close>
\<close>

function block_comment :: "Lexer \<Rightarrow> Lexer" where
  "block_comment L =
     (case current_char L of
        None \<Rightarrow> L
      | Some c \<Rightarrow>
          if c = CHR ''*'' \<and> peek L = Some (CHR ''/'') then advance (advance L)
          else block_comment (advance L))"
  by pat_completeness auto
termination
  by (relation "measure (\<lambda>L. length (lex_text L) - lex_pos L)")
     (auto simp: current_char_def advance_def split: if_splits)

declare block_comment.simps [simp del]

text \<open>
  \<^verbatim>\<open>skip_comment\<close>: the token is \<^verbatim>\<open>Some\<close> for a division sign, \<^verbatim>\<open>None\<close> after a comment
  (and when the current character is not a slash).
\<close>

definition skip_comment :: "Lexer \<Rightarrow> Token option \<times> Lexer" where
  "skip_comment L =
     (if current_char L = Some (CHR ''/'') then
        (let L1 = advance L in
         if current_char L1 = Some (CHR ''/'') then
           (None, advance (snd (consume_while (\<lambda>c. c \<noteq> CHR 0x0A) L1 [])))
         else if current_char L1 = Some (CHR ''*'') then
           (None, block_comment (advance L1))
         else
           (Some \<lparr>tok_type = DIV, tok_value = PyStr ''/'', tok_line = lex_line L1,
                  tok_column = lex_column L1 - 1\<rparr>, L1))
      else (None, L))"

text \<open>
  Python's \<^verbatim>\<open>int(result)\<close> and \<^verbatim>\<open>float(result)\<close> on the texts \<^verbatim>\<open>number\<close> builds, which
  hold decimal digits and dots only: \<^verbatim>\<open>int\<close> accepts a non-empty run of digits; \<^verbatim>\<open>float\<close>
  accepts digits with at most one dot and at least one digit (\<^verbatim>\<open>"1."\<close> and \<^verbatim>\<open>".5"\<close> are
  floats, \<^verbatim>\<open>"."\<close> and \<^verbatim>\<open>"1.2.3"\<close> raise \<^verbatim>\<open>ValueError\<close>).
\<close>

definition digit_val :: "char \<Rightarrow> nat" where
  "digit_val c = of_char c - 48"

definition digits_val :: "string \<Rightarrow> nat" where
  "digits_val s = foldl (\<lambda>a c. 10 * a + digit_val c) 0 s"

definition py_int :: "string \<Rightarrow> error + int" where
  "py_int s =
     (if s \<noteq> [] \<and> list_all isdigit s then Inr (int (digits_val s)) else Inl (ValueError s))"

definition py_float :: "string \<Rightarrow> error + real" where
  "py_float s =
     (let ip = takeWhile isdigit s; rest = dropWhile isdigit s in
      case rest of
        [] \<Rightarrow> if ip \<noteq> [] then Inr (real (digits_val ip)) else Inl (ValueError s)
      | c # fp \<Rightarrow>
          if c = CHR ''.'' \<and> list_all isdigit fp \<and> ip @ fp \<noteq> []
          then Inr (real (digits_val (ip @ fp)) / 10 ^ length fp)
          else Inl (ValueError s))"

text \<open>\<^verbatim>\<open>Lexer.number\<close>. The token's column is \<^verbatim>\<open>start_pos\<close>, the offset in the text.\<close>

definition number :: "Lexer \<Rightarrow> error + Token \<times> Lexer" where
  "number L =
     (let start_pos = lex_pos L;
          (result, L') = consume_while (\<lambda>c. isdigit c \<or> c = CHR ''.'') L []
      in if CHR ''.'' \<in> set result then
           (case py_float result of
              Inl e \<Rightarrow> Inl e
            | Inr r \<Rightarrow> Inr (\<lparr>tok_type = FLOAT, tok_value = PyFloat r, tok_line = lex_line L',
                             tok_column = int start_pos\<rparr>, L'))
         else
           (case py_int result of
              Inl e \<Rightarrow> Inl e
            | Inr i \<Rightarrow> Inr (\<lparr>tok_type = INTEGER, tok_value = PyInt i, tok_line = lex_line L',
                             tok_column = int start_pos\<rparr>, L')))"

text \<open>\<^verbatim>\<open>Lexer.string\<close>.\<close>

definition string :: "Lexer \<Rightarrow> error + Token \<times> Lexer" where
  "string L =
     (let start_pos = lex_pos L;
          (result, L') = consume_while (\<lambda>c. c \<noteq> CHR 0x22) (advance L) []
      in if current_char L' = None then Inl (UnterminatedString (lex_line L') start_pos)
         else Inr (\<lparr>tok_type = STRING, tok_value = PyStr result, tok_line = lex_line (advance L'),
                     tok_column = int start_pos\<rparr>, advance L'))"

text \<open>\<^verbatim>\<open>Lexer.identifier\<close> (\<^verbatim>\<open>identifier\<close> is reserved in Isabelle).\<close>

definition identifier_tok :: "Lexer \<Rightarrow> Token \<times> Lexer" where
  "identifier_tok L =
     (let start_pos = lex_pos L;
          (result, L') = consume_while (\<lambda>c. isalnum c \<or> c = CHR ''_'') L []
      in if result = ''true'' then
           (\<lparr>tok_type = BOOLEAN, tok_value = PyBool True, tok_line = lex_line L',
              tok_column = int start_pos\<rparr>, L')
         else if result = ''false'' then
           (\<lparr>tok_type = BOOLEAN, tok_value = PyBool False, tok_line = lex_line L',
              tok_column = int start_pos\<rparr>, L')
         else
           (\<lparr>tok_type = IDENTIFIER, tok_value = PyStr result, tok_line = lex_line L',
              tok_column = int start_pos\<rparr>, L'))"

text \<open>The table of single-character tokens in \<^verbatim>\<open>get_next_token\<close>, in its order.\<close>

definition single_char_tokens :: "(TokenType \<times> char) list" where
  "single_char_tokens =
     [(ASSIGN, CHR ''=''), (PLUS, CHR ''+''), (MINUS, CHR ''-''), (MUL, CHR ''*''),
      (LPAREN, CHR ''(''), (RPAREN, CHR '')''), (LBRACKET, CHR ''[''), (RBRACKET, CHR '']''),
      (LBRACE, CHR ''{''), (RBRACE, CHR ''}''), (COMMA, CHR '',''), (COLON, CHR '':'')]"

lemma consume_while_text: "lex_text (snd (consume_while p L r)) = lex_text L"
proof (induction p L r rule: consume_while.induct)
  case (1 p L r)
  then show ?case
    by (subst consume_while.simps) (auto simp: advance_def split: option.splits)
qed

lemma consume_while_pos: "lex_pos L \<le> lex_pos (snd (consume_while p L r))"
proof (induction p L r rule: consume_while.induct)
  case (1 p L r)
  show ?case
  proof (cases "current_char L")
    case None
    then show ?thesis by (subst consume_while.simps) simp
  next
    case (Some c)
    show ?thesis
    proof (cases "p c")
      case True
      have "lex_pos L \<le> lex_pos (advance L)" by (simp add: advance_def)
      also have "\<dots> \<le> lex_pos (snd (consume_while p (advance L) (r @ [c])))"
        using "1.IH" [OF Some True] .
      finally show ?thesis using Some True by (subst consume_while.simps) simp
    next
      case False
      then show ?thesis using Some by (subst consume_while.simps) simp
    qed
  qed
qed

lemma consume_while_progress:
  assumes "current_char L = Some c" and "p c"
  shows "lex_pos L < lex_pos (snd (consume_while p L r))"
proof -
  have "lex_pos L < lex_pos (advance L)" by (simp add: advance_def)
  also have "\<dots> \<le> lex_pos (snd (consume_while p (advance L) (r @ [c])))"
    by (rule consume_while_pos)
  finally show ?thesis using assms by (subst consume_while.simps) simp
qed

lemma block_comment_text: "lex_text (block_comment L) = lex_text L"
proof (induction L rule: block_comment.induct)
  case (1 L)
  then show ?case
    by (subst block_comment.simps) (auto simp: advance_def split: option.splits)
qed

lemma block_comment_pos: "lex_pos L \<le> lex_pos (block_comment L)"
proof (induction L rule: block_comment.induct)
  case (1 L)
  show ?case
  proof (cases "current_char L")
    case None
    then show ?thesis by (subst block_comment.simps) simp
  next
    case (Some c)
    show ?thesis
    proof (cases "c = CHR ''*'' \<and> peek L = Some (CHR ''/'')")
      case True
      then show ?thesis using Some
        by (subst block_comment.simps) (simp add: advance_def)
    next
      case False
      have "lex_pos L \<le> lex_pos (advance L)" by (simp add: advance_def)
      also have "\<dots> \<le> lex_pos (block_comment (advance L))"
        using "1.IH" [OF Some False] .
      finally show ?thesis using Some False by (subst block_comment.simps) auto
    qed
  qed
qed

lemma advance_text [simp]: "lex_text (advance L) = lex_text L"
  by (simp add: advance_def)

lemma advance_pos [simp]: "lex_pos (advance L) = lex_pos L + 1"
  by (simp add: advance_def)

lemma skip_comment_text: "lex_text (snd (skip_comment L)) = lex_text L"
  by (simp add: skip_comment_def Let_def consume_while_text block_comment_text)

lemma skip_comment_progress:
  assumes "current_char L = Some (CHR ''/'')"
  shows "lex_pos L < lex_pos (snd (skip_comment L))"
proof -
  let ?L1 = "advance L"
  have a: "lex_pos L < lex_pos ?L1" by simp
  have b: "lex_pos ?L1 \<le> lex_pos (advance (snd (consume_while (\<lambda>c. c \<noteq> CHR 0x0A) ?L1 [])))"
    using consume_while_pos [of ?L1 "\<lambda>c. c \<noteq> CHR 0x0A" "[]"] by simp
  have c: "lex_pos ?L1 \<le> lex_pos (block_comment (advance ?L1))"
    using block_comment_pos [of "advance ?L1"] by simp
  show ?thesis
    using assms a b c by (simp add: skip_comment_def Let_def)
qed

text \<open>
  \<^verbatim>\<open>Lexer.get_next_token\<close>. Each \<^verbatim>\<open>continue\<close> of its loop is a recursive call on the lexer
  left by \<^verbatim>\<open>skip_whitespace\<close> or \<^verbatim>\<open>skip_comment\<close>.
\<close>

function get_next_token :: "Lexer \<Rightarrow> error + Token \<times> Lexer" where
  "get_next_token L =
     (case current_char L of
        None \<Rightarrow> Inr (\<lparr>tok_type = EOF, tok_value = PyNone, tok_line = lex_line L,
                      tok_column = lex_column L\<rparr>, L)
      | Some c \<Rightarrow>
          if isspace c then get_next_token (skip_whitespace L)
          else if c = CHR ''/'' then
            (case fst (skip_comment L) of
               Some comment_token \<Rightarrow> Inr (comment_token, snd (skip_comment L))
             | None \<Rightarrow> get_next_token (snd (skip_comment L)))
          else if isdigit c \<or> c = CHR ''.'' then number L
          else if c = CHR 0x22 then string L
          else if isalpha c \<or> c = CHR ''_'' then Inr (identifier_tok L)
          else
            (case find (\<lambda>(token_type, char). c = char) single_char_tokens of
               Some (token_type, char) \<Rightarrow>
                 Inr (\<lparr>tok_type = token_type, tok_value = PyStr [char], tok_line = lex_line L,
                        tok_column = lex_column L\<rparr>, advance L)
             | None \<Rightarrow> Inl (InvalidCharacter c (lex_line L) (lex_column L))))"
  by pat_completeness auto
termination
proof (relation "measure (\<lambda>L. length (lex_text L) - lex_pos L)")
  show "wf (measure (\<lambda>L. length (lex_text L) - lex_pos L))" by simp
next
  fix L c
  assume c: "current_char L = Some c" and sp: "isspace c"
  have "lex_pos L < length (lex_text L)"
    using c by (simp add: current_char_def split: if_splits)
  moreover have "lex_pos L < lex_pos (skip_whitespace L)"
    unfolding skip_whitespace_def using consume_while_progress [of L c isspace "[]"] c sp by simp
  moreover have "lex_text (skip_whitespace L) = lex_text L"
    by (simp add: skip_whitespace_def consume_while_text)
  ultimately show "(skip_whitespace L, L) \<in> measure (\<lambda>L. length (lex_text L) - lex_pos L)"
    by simp
next
  fix L c
  assume c: "current_char L = Some c" and sl: "c = CHR ''/''"
  have "lex_pos L < length (lex_text L)"
    using c by (simp add: current_char_def split: if_splits)
  moreover have "lex_pos L < lex_pos (snd (skip_comment L))"
    using skip_comment_progress c sl by simp
  ultimately show "(snd (skip_comment L), L) \<in> measure (\<lambda>L. length (lex_text L) - lex_pos L)"
    by (simp add: skip_comment_text)
qed

declare get_next_token.simps [simp del]

text \<open>
  \<^verbatim>\<open>Lexer.debug_tokens\<close>: \<^verbatim>\<open>get_next_token\<close> is called until it returns an \<^verbatim>\<open>EOF\<close> token;
  the tokens are collected in order. An exception of \<^verbatim>\<open>get_next_token\<close> ends the loop.
\<close>

lemma consume_while_pos_fst:
  "consume_while p L r = (res, L') \<Longrightarrow> lex_pos L \<le> lex_pos L' \<and> lex_text L' = lex_text L"
  using consume_while_pos [of L p r] consume_while_text [of p L r] by simp

lemma get_next_token_text:
  "get_next_token L = Inr (t, L') \<Longrightarrow> lex_text L' = lex_text L"
proof (induction L rule: get_next_token.induct)
  case (1 L)
  show ?case
  proof (cases "current_char L")
    case None
    then show ?thesis using "1.prems" by (subst (asm) get_next_token.simps) auto
  next
    case (Some c)
    consider (sp) "isspace c"
      | (sl) "\<not> isspace c" "c = CHR ''/''"
      | (other) "\<not> isspace c" "c \<noteq> CHR ''/''"
      by blast
    then show ?thesis
    proof cases
      case sp
      then have "get_next_token L = get_next_token (skip_whitespace L)"
        using Some by (subst get_next_token.simps) simp
      then have "lex_text L' = lex_text (skip_whitespace L)"
        using "1.IH"(1) [OF Some sp] "1.prems" by simp
      then show ?thesis by (simp add: skip_whitespace_def consume_while_text)
    next
      case sl
      show ?thesis
      proof (cases "fst (skip_comment L)")
        case None
        then have "get_next_token L = get_next_token (snd (skip_comment L))"
          using Some sl by (subst get_next_token.simps) simp
        then have "lex_text L' = lex_text (snd (skip_comment L))"
          using "1.IH"(2) [OF Some sl(1) sl(2) None] "1.prems" by simp
        then show ?thesis by (simp add: skip_comment_text)
      next
        case (Some tk)
        then have "get_next_token L = Inr (tk, snd (skip_comment L))"
          using \<open>current_char L = Some c\<close> sl by (subst get_next_token.simps) simp
        then show ?thesis using "1.prems" skip_comment_text [of L] by auto
      qed
    next
      case other
      then show ?thesis using "1.prems" Some
        by (subst (asm) get_next_token.simps)
           (auto simp: number_def string_def identifier_tok_def Let_def
                 split: if_splits prod.splits sum.splits option.splits
                 dest!: consume_while_pos_fst)
    qed
  qed
qed

lemma get_next_token_progress:
  "get_next_token L = Inr (t, L') \<Longrightarrow> tok_type t \<noteq> EOF \<Longrightarrow> lex_pos L < lex_pos L'"
proof (induction L rule: get_next_token.induct)
  case (1 L)
  show ?case
  proof (cases "current_char L")
    case None
    then show ?thesis using "1.prems" by (subst (asm) get_next_token.simps) auto
  next
    case (Some c)
    consider (sp) "isspace c"
      | (sl) "\<not> isspace c" "c = CHR ''/''"
      | (other) "\<not> isspace c" "c \<noteq> CHR ''/''"
      by blast
    then show ?thesis
    proof cases
      case sp
      then have "get_next_token L = get_next_token (skip_whitespace L)"
        using Some by (subst get_next_token.simps) simp
      then have "lex_pos (skip_whitespace L) < lex_pos L'"
        using "1.IH"(1) [OF Some sp] "1.prems" by simp
      moreover have "lex_pos L \<le> lex_pos (skip_whitespace L)"
        by (simp add: skip_whitespace_def consume_while_pos)
      ultimately show ?thesis by simp
    next
      case sl
      have pr: "lex_pos L < lex_pos (snd (skip_comment L))"
        using skip_comment_progress Some sl by simp
      show ?thesis
      proof (cases "fst (skip_comment L)")
        case None
        then have "get_next_token L = get_next_token (snd (skip_comment L))"
          using Some sl by (subst get_next_token.simps) simp
        then have "lex_pos (snd (skip_comment L)) < lex_pos L'"
          using "1.IH"(2) [OF Some sl(1) sl(2) None] "1.prems" by simp
        then show ?thesis using pr by simp
      next
        case (Some tk)
        then have "get_next_token L = Inr (tk, snd (skip_comment L))"
          using \<open>current_char L = Some c\<close> sl by (subst get_next_token.simps) simp
        then show ?thesis using "1.prems" pr by auto
      qed
    next
      case other
      have num: "lex_pos L < lex_pos (snd (consume_while (\<lambda>c. isdigit c \<or> c = CHR ''.'') L []))"
        if "isdigit c \<or> c = CHR ''.''"
        using consume_while_progress [of L c "\<lambda>c. isdigit c \<or> c = CHR ''.''" "[]"] Some that
        by simp
      have idt: "lex_pos L < lex_pos (snd (consume_while (\<lambda>c. isalnum c \<or> c = CHR ''_'') L []))"
        if "isalpha c \<or> c = CHR ''_''"
        using consume_while_progress [of L c "\<lambda>c. isalnum c \<or> c = CHR ''_''" "[]"] Some that
        by (auto simp: isalnum_def)
      have str: "lex_pos L < lex_pos (advance (snd (consume_while (\<lambda>c. c \<noteq> CHR 0x22) (advance L) [])))"
        using consume_while_pos [of "advance L" "\<lambda>c. c \<noteq> CHR 0x22" "[]"] by simp
      show ?thesis using "1.prems" Some other num idt str
        by (subst (asm) get_next_token.simps)
           (auto simp: number_def string_def identifier_tok_def Let_def
                 split: if_splits prod.splits sum.splits option.splits)
    qed
  qed
qed

function debug_tokens :: "Lexer \<Rightarrow> Token list \<Rightarrow> error + Token list" where
  "debug_tokens L tokens =
     (case get_next_token L of
        Inl e \<Rightarrow> Inl e
      | Inr (token, L') \<Rightarrow>
          if tok_type token = EOF then Inr (tokens @ [token])
          else debug_tokens L' (tokens @ [token]))"
  by pat_completeness auto
termination
proof (relation "measure (\<lambda>(L, ts). length (lex_text L) - lex_pos L)")
  show "wf (measure (\<lambda>(L, ts). length (lex_text L) - lex_pos L))" by simp
next
  fix L :: Lexer and tokens :: "Token list" and x token L'
  assume g: "get_next_token L = Inr x" and x: "(token, L') = x" and ne: "tok_type token \<noteq> EOF"
  have g': "get_next_token L = Inr (token, L')" using g x by simp
  have "current_char L \<noteq> None"
  proof
    assume "current_char L = None"
    then have "get_next_token L = Inr (\<lparr>tok_type = EOF, tok_value = PyNone,
        tok_line = lex_line L, tok_column = lex_column L\<rparr>, L)"
      by (subst get_next_token.simps) simp
    then show False using g' ne by auto
  qed
  then have "lex_pos L < length (lex_text L)"
    by (simp add: current_char_def split: if_splits)
  moreover have "lex_pos L < lex_pos L'"
    using get_next_token_progress [OF g' ne] .
  moreover have "lex_text L' = lex_text L"
    using get_next_token_text [OF g'] .
  ultimately show "((L', tokens @ [token]), (L, tokens))
      \<in> measure (\<lambda>(L, ts). length (lex_text L) - lex_pos L)"
    by simp
qed

declare debug_tokens.simps [simp del]

section \<open>Syntax trees and the parser\<close>

text \<open>
  The classes \<^verbatim>\<open>BinOp\<close>, \<^verbatim>\<open>Num\<close>, \<^verbatim>\<open>Var\<close>, \<^verbatim>\<open>Assign\<close>, \<^verbatim>\<open>ListExpr\<close> and \<^verbatim>\<open>DictExpr\<close>.
  \<^verbatim>\<open>NoNode\<close> is Python's \<^verbatim>\<open>None\<close> standing where a node is expected: \<^verbatim>\<open>Parser.factor\<close>
  returns it when no branch matches. \<^verbatim>\<open>DictExpr.pairs\<close> is a Python \<^verbatim>\<open>dict\<close> from a key to
  the node of its value.
\<close>

datatype AST =
    BinOp AST Token AST
  | Num Token
  | Var Token
  | Assign AST Token AST
  | ListExpr "AST list"
  | DictExpr "(pyval \<times> AST) list"
  | NoNode

text \<open>
  The attribute \<^verbatim>\<open>node.value\<close>: \<^verbatim>\<open>Num\<close> and \<^verbatim>\<open>Var\<close> have it (the value of their token);
  on any other node, and on \<^verbatim>\<open>None\<close>, Python raises \<^verbatim>\<open>AttributeError\<close>.
\<close>

fun node_value :: "AST \<Rightarrow> error + pyval" where
  "node_value (Num t) = Inr (tok_value t)"
| "node_value (Var t) = Inr (tok_value t)"
| "node_value _ = Inl AttributeError"

fun is_Var :: "AST \<Rightarrow> bool" where
  "is_Var (Var t) = True"
| "is_Var _ = False"

text \<open>
  Equality of Python values as \<^verbatim>\<open>dict\<close> keys: \<^verbatim>\<open>bool\<close>, \<^verbatim>\<open>int\<close> and \<^verbatim>\<open>float\<close> compare by
  number (\<^verbatim>\<open>1 == 1.0 == True\<close>), any other value only equals itself.
\<close>

fun num_of :: "pyval \<Rightarrow> real option" where
  "num_of (PyBool b) = Some (if b then 1 else 0)"
| "num_of (PyInt i) = Some (real_of_int i)"
| "num_of (PyFloat r) = Some r"
| "num_of _ = None"

definition py_eq :: "pyval \<Rightarrow> pyval \<Rightarrow> bool" where
  "py_eq a b =
     (case num_of a of
        Some x \<Rightarrow> (case num_of b of Some y \<Rightarrow> x = y | None \<Rightarrow> False)
      | None \<Rightarrow> (case num_of b of Some y \<Rightarrow> False | None \<Rightarrow> a = b))"

text \<open>
  The store \<^verbatim>\<open>d[k] = v\<close> of a Python \<^verbatim>\<open>dict\<close>: an equal key keeps its place and its key
  object and takes the new value; a new key goes last.
\<close>

fun dict_set :: "(pyval \<times> 'v) list \<Rightarrow> pyval \<Rightarrow> 'v \<Rightarrow> (pyval \<times> 'v) list" where
  "dict_set [] k v = [(k, v)]"
| "dict_set ((k', v') # rest) k v =
     (if py_eq k' k then (k', v) # rest else (k', v') # dict_set rest k v)"

text \<open>\<^verbatim>\<open>class Parser\<close>: the lexer and the one token of lookahead.\<close>

record Parser =
  par_lexer :: Lexer
  current_token :: Token

definition Parser_init :: "Lexer \<Rightarrow> error + Parser" where
  "Parser_init L =
     (case get_next_token L of
        Inl e \<Rightarrow> Inl e
      | Inr (t, L') \<Rightarrow> Inr \<lparr>par_lexer = L', current_token = t\<rparr>)"

text \<open>\<^verbatim>\<open>Parser.eat\<close>; \<^verbatim>\<open>Parser.error\<close> raises \<^verbatim>\<open>Exception('Invalid syntax')\<close>.\<close>

definition eat :: "TokenType \<Rightarrow> Parser \<Rightarrow> error + Parser" where
  "eat token_type P =
     (if tok_type (current_token P) = token_type then
        (case get_next_token (par_lexer P) of
           Inl e \<Rightarrow> Inl e
         | Inr (t, L') \<Rightarrow> Inr \<lparr>par_lexer = L', current_token = t\<rparr>)
      else Inl InvalidSyntax)"

text \<open>
  The parser's methods call each other and loop on the tokens they read; the list loop of
  \<^verbatim>\<open>factor\<close> does not end when \<^verbatim>\<open>expr\<close> reads nothing (on \<^verbatim>\<open>[\<close> followed by the end of the
  text, \<^verbatim>\<open>elements.append(None)\<close> repeats for ever). So every method takes fuel: each call
  and each loop iteration uses one unit, and the result is \<^verbatim>\<open>None\<close> when the fuel runs out,
  \<^verbatim>\<open>Some (Inl e)\<close> for an exception and \<^verbatim>\<open>Some (Inr (x, P))\<close> for a return of \<^verbatim>\<open>x\<close> that
  leaves the parser as \<^verbatim>\<open>P\<close>.

  The body of each method is written once, over the methods it calls (the arguments
  \<^verbatim>\<open>expr'\<close>, \<^verbatim>\<open>term'\<close>, \<^verbatim>\<open>factor'\<close> and the loops); the recursive definition below passes
  each body the methods with one unit of fuel less.
\<close>

type_synonym 'a parse_result = "(error + 'a \<times> Parser) option"

definition bind_res :: "(error + 'a) option \<Rightarrow> ('a \<Rightarrow> (error + 'b) option) \<Rightarrow> (error + 'b) option"
  where
  "bind_res m f =
     (case m of None \<Rightarrow> None | Some (Inl e) \<Rightarrow> Some (Inl e) | Some (Inr x) \<Rightarrow> f x)"

text \<open>The step \<^verbatim>\<open>if self.current_token.type == COMMA: self.eat(COMMA)\<close> of both literal loops.\<close>

definition eat_comma :: "Parser \<Rightarrow> error + Parser" where
  "eat_comma P = (if tok_type (current_token P) = COMMA then eat COMMA P else Inr P)"

text \<open>\<^verbatim>\<open>Parser.factor\<close>; falling off the end of the method returns \<^verbatim>\<open>None\<close>.\<close>

definition factor_body ::
  "(Parser \<Rightarrow> AST parse_result) \<Rightarrow> (Parser \<Rightarrow> AST list \<Rightarrow> AST list parse_result) \<Rightarrow>
   (Parser \<Rightarrow> (pyval \<times> AST) list \<Rightarrow> (pyval \<times> AST) list parse_result) \<Rightarrow>
   Parser \<Rightarrow> AST parse_result" where
  "factor_body expr' list_loop' dict_loop' P =
     (let token = current_token P in
      if tok_type token \<in> {INTEGER, FLOAT, STRING, BOOLEAN} then
        bind_res (Some (eat (tok_type token) P)) (\<lambda>P1. Some (Inr (Num token, P1)))
      else if tok_type token = IDENTIFIER then
        bind_res (Some (eat IDENTIFIER P)) (\<lambda>P1. Some (Inr (Var token, P1)))
      else if tok_type token = LPAREN then
        bind_res (Some (eat LPAREN P)) (\<lambda>P1.
        bind_res (expr' P1) (\<lambda>(node, P2).
        bind_res (Some (eat RPAREN P2)) (\<lambda>P3. Some (Inr (node, P3)))))
      else if tok_type token = LBRACKET then
        bind_res (Some (eat LBRACKET P)) (\<lambda>P1.
        bind_res (list_loop' P1 []) (\<lambda>(elements, P2).
        bind_res (Some (eat RBRACKET P2)) (\<lambda>P3. Some (Inr (ListExpr elements, P3)))))
      else if tok_type token = LBRACE then
        bind_res (Some (eat LBRACE P)) (\<lambda>P1.
        bind_res (dict_loop' P1 []) (\<lambda>(pairs, P2).
        bind_res (Some (eat RBRACE P2)) (\<lambda>P3. Some (Inr (DictExpr pairs, P3)))))
      else Some (Inr (NoNode, P)))"

text \<open>
  The loop of the list literal:
  \<^verbatim>\<open>while self.current_token.type != RBRACKET:
      elements.append(self.expr())
      if self.current_token.type == COMMA: self.eat(COMMA)\<close>
\<close>

definition list_loop_body ::
  "(Parser \<Rightarrow> AST parse_result) \<Rightarrow> (Parser \<Rightarrow> AST list \<Rightarrow> AST list parse_result) \<Rightarrow>
   Parser \<Rightarrow> AST list \<Rightarrow> AST list parse_result" where
  "list_loop_body expr' list_loop' P elements =
     (if tok_type (current_token P) \<noteq> RBRACKET then
        bind_res (expr' P) (\<lambda>(node, P1).
        bind_res (Some (eat_comma P1)) (\<lambda>P2.
        list_loop' P2 (elements @ [node])))
      else Some (Inr (elements, P)))"

text \<open>
  The loop of the dict literal:
  \<^verbatim>\<open>while self.current_token.type != RBRACE:
      key = self.expr(); self.eat(COLON); value = self.expr()
      pairs[key.value] = value
      if self.current_token.type == COMMA: self.eat(COMMA)\<close>
\<close>

definition dict_loop_body ::
  "(Parser \<Rightarrow> AST parse_result) \<Rightarrow>
   (Parser \<Rightarrow> (pyval \<times> AST) list \<Rightarrow> (pyval \<times> AST) list parse_result) \<Rightarrow>
   Parser \<Rightarrow> (pyval \<times> AST) list \<Rightarrow> (pyval \<times> AST) list parse_result" where
  "dict_loop_body expr' dict_loop' P pairs =
     (if tok_type (current_token P) \<noteq> RBRACE then
        bind_res (expr' P) (\<lambda>(key, P1).
        bind_res (Some (eat COLON P1)) (\<lambda>P2.
        bind_res (expr' P2) (\<lambda>(val, P3).
        bind_res (Some (node_value key)) (\<lambda>k.
        bind_res (Some (eat_comma P3)) (\<lambda>P4.
        dict_loop' P4 (dict_set pairs k val))))))
      else Some (Inr (pairs, P)))"

text \<open>
  The loops of \<^verbatim>\<open>Parser.term\<close> and \<^verbatim>\<open>Parser.expr\<close>; \<^verbatim>\<open>operators\<close> is the tuple of token
  types that continue the loop and \<^verbatim>\<open>operand'\<close> the method that reads the right operand.
  Each branch of the \<^verbatim>\<open>if\<close>/\<^verbatim>\<open>elif\<close> chain eats the type of the current token.
\<close>

definition binop_loop_body ::
  "TokenType set \<Rightarrow> (Parser \<Rightarrow> AST parse_result) \<Rightarrow> (Parser \<Rightarrow> AST \<Rightarrow> AST parse_result) \<Rightarrow>
   Parser \<Rightarrow> AST \<Rightarrow> AST parse_result" where
  "binop_loop_body operators operand' loop' P node =
     (if tok_type (current_token P) \<in> operators then
        (let token = current_token P in
         bind_res (Some (eat (tok_type token) P)) (\<lambda>P1.
         bind_res (operand' P1) (\<lambda>(right, P2).
         loop' P2 (BinOp node token right))))
      else Some (Inr (node, P)))"

fun factor :: "nat \<Rightarrow> Parser \<Rightarrow> AST parse_result"
  and list_loop :: "nat \<Rightarrow> Parser \<Rightarrow> AST list \<Rightarrow> AST list parse_result"
  and dict_loop :: "nat \<Rightarrow> Parser \<Rightarrow> (pyval \<times> AST) list \<Rightarrow> (pyval \<times> AST) list parse_result"
  and term_loop :: "nat \<Rightarrow> Parser \<Rightarrow> AST \<Rightarrow> AST parse_result"
  and "term" :: "nat \<Rightarrow> Parser \<Rightarrow> AST parse_result"
  and expr_loop :: "nat \<Rightarrow> Parser \<Rightarrow> AST \<Rightarrow> AST parse_result"
  and expr :: "nat \<Rightarrow> Parser \<Rightarrow> AST parse_result"
  where
  "factor 0 P = None"
| "factor (Suc n) P = factor_body (expr n) (list_loop n) (dict_loop n) P"
| "list_loop 0 P elements = None"
| "list_loop (Suc n) P elements = list_loop_body (expr n) (list_loop n) P elements"
| "dict_loop 0 P pairs = None"
| "dict_loop (Suc n) P pairs = dict_loop_body (expr n) (dict_loop n) P pairs"
| "term_loop 0 P node = None"
| "term_loop (Suc n) P node = binop_loop_body {MUL, DIV} (factor n) (term_loop n) P node"
| term_0: "term 0 P = None"
| term_Suc: "term (Suc n) P = bind_res (factor n P) (\<lambda>(node, P1). term_loop n P1 node)"
| "expr_loop 0 P node = None"
| "expr_loop (Suc n) P node =
     binop_loop_body {PLUS, MINUS, DIV} (term n) (expr_loop n) P node"
| "expr 0 P = None"
| "expr (Suc n) P = bind_res (term n P) (\<lambda>(node, P1). expr_loop n P1 node)"

text \<open>\<^verbatim>\<open>Parser.assignment\<close> and \<^verbatim>\<open>Parser.parse\<close>.\<close>

definition assignment :: "nat \<Rightarrow> Parser \<Rightarrow> AST parse_result" where
  "assignment n P =
     bind_res (expr n P) (\<lambda>(left, P1).
       if is_Var left \<and> tok_type (current_token P1) = ASSIGN then
         (let token = current_token P1 in
          bind_res (Some (eat ASSIGN P1)) (\<lambda>P2.
          bind_res (expr n P2) (\<lambda>(right, P3). Some (Inr (Assign left token right, P3)))))
       else Some (Inr (left, P1)))"

definition parse :: "nat \<Rightarrow> Parser \<Rightarrow> AST parse_result" where
  "parse n P = assignment n P"

section \<open>Interpreter\<close>

text \<open>
  \<^verbatim>\<open>SymbolTable.symbols\<close>, the \<^verbatim>\<open>dict\<close> from a name to its value. \<^verbatim>\<open>SymbolTable.get\<close> is
  \<^verbatim>\<open>dict.get\<close>, which returns \<^verbatim>\<open>None\<close> for a missing name; \<^verbatim>\<open>SymbolTable.set\<close> stores.
\<close>

type_synonym symbols = "pyval \<Rightarrow> pyval option"

definition SymbolTable_get :: "symbols \<Rightarrow> pyval \<Rightarrow> pyval" where
  "SymbolTable_get S name = (case S name of None \<Rightarrow> PyNone | Some v \<Rightarrow> v)"

definition SymbolTable_set :: "symbols \<Rightarrow> pyval \<Rightarrow> pyval \<Rightarrow> symbols" where
  "SymbolTable_set S name v = S(name \<mapsto> v)"

text \<open>\<^verbatim>\<open>type(v).__name__\<close>, for the message of the \<^verbatim>\<open>TypeError\<close>.\<close>

fun type_name :: "pyval \<Rightarrow> string" where
  "type_name PyNone = ''NoneType''"
| "type_name (PyBool b) = ''bool''"
| "type_name (PyInt i) = ''int''"
| "type_name (PyFloat r) = ''float''"
| "type_name (PyStr s) = ''str''"
| "type_name (PyList vs) = ''list''"
| "type_name (PyDict kvs) = ''dict''"

text \<open>
  \<^verbatim>\<open>isinstance(v, (int, float))\<close>: Python's \<^verbatim>\<open>bool\<close> is a subclass of \<^verbatim>\<open>int\<close>, so the booleans
  pass the test and count as 0 and 1 in arithmetic.
\<close>

fun is_number :: "pyval \<Rightarrow> bool" where
  "is_number (PyBool b) = True"
| "is_number (PyInt i) = True"
| "is_number (PyFloat r) = True"
| "is_number _ = False"

fun as_int :: "pyval \<Rightarrow> int option" where
  "as_int (PyBool b) = Some (if b then 1 else 0)"
| "as_int (PyInt i) = Some i"
| "as_int _ = None"

definition to_real :: "pyval \<Rightarrow> real" where
  "to_real v = (case num_of v of Some r \<Rightarrow> r | None \<Rightarrow> 0)"

text \<open>
  Python's \<^verbatim>\<open>+\<close>, \<^verbatim>\<open>-\<close> and \<^verbatim>\<open>*\<close> on two numbers: an \<^verbatim>\<open>int\<close> when both operands are
  \<^verbatim>\<open>int\<close> (or \<^verbatim>\<open>bool\<close>), a \<^verbatim>\<open>float\<close> otherwise. Python's \<^verbatim>\<open>/\<close> is true division: its result
  is a \<^verbatim>\<open>float\<close> whatever the operands.
\<close>

definition py_arith ::
  "(int \<Rightarrow> int \<Rightarrow> int) \<Rightarrow> (real \<Rightarrow> real \<Rightarrow> real) \<Rightarrow> pyval \<Rightarrow> pyval \<Rightarrow> pyval" where
  "py_arith int_op real_op a b =
     (case as_int a of
        Some i \<Rightarrow>
          (case as_int b of
             Some j \<Rightarrow> PyInt (int_op i j)
           | None \<Rightarrow> PyFloat (real_op (to_real a) (to_real b)))
      | None \<Rightarrow> PyFloat (real_op (to_real a) (to_real b)))"

definition py_truediv :: "pyval \<Rightarrow> pyval \<Rightarrow> pyval" where
  "py_truediv a b = PyFloat (to_real a / to_real b)"

fun str_of :: "pyval \<Rightarrow> string option" where
  "str_of (PyStr s) = Some s"
| "str_of _ = None"

text \<open>
  The part of \<^verbatim>\<open>Interpreter.visit_BinOp\<close> after both operands are evaluated. When both are
  numbers and the operator is none of the four, the method falls off its end and returns
  \<^verbatim>\<open>None\<close>.
\<close>

definition visit_BinOp :: "Token \<Rightarrow> pyval \<Rightarrow> pyval \<Rightarrow> error + pyval" where
  "visit_BinOp op left right =
     (if is_number left \<and> is_number right then
        (if tok_type op = PLUS then Inr (py_arith (+) (+) left right)
         else if tok_type op = MINUS then Inr (py_arith (-) (-) left right)
         else if tok_type op = MUL then Inr (py_arith (*) (*) left right)
         else if tok_type op = DIV then
           (if num_of right = Some 0 then Inl ZeroDivisionError
            else Inr (py_truediv left right))
         else Inr PyNone)
      else
        (case (str_of left, str_of right) of
           (Some l, Some r) \<Rightarrow>
             if tok_type op = PLUS then Inr (PyStr (l @ r))
             else Inl (TypeError (tok_value op) (type_name left) (type_name right))
         | _ \<Rightarrow> Inl (TypeError (tok_value op) (type_name left) (type_name right))))"

text \<open>\<^verbatim>\<open>Interpreter.visit_Var\<close>: a name whose lookup gives \<^verbatim>\<open>None\<close> is not defined.\<close>

definition visit_Var :: "symbols \<Rightarrow> Token \<Rightarrow> error + pyval" where
  "visit_Var S t =
     (let v = SymbolTable_get S (tok_value t) in
      if v = PyNone then Inl (NameError (tok_value t)) else Inr v)"

text \<open>
  \<^verbatim>\<open>NodeVisitor.visit\<close> with the methods of \<^verbatim>\<open>Interpreter\<close>. The symbol table is passed in and
  returned, also when an exception is raised (the second component is the table as the
  exception leaves it). \<^verbatim>\<open>visit(None)\<close> finds no method \<^verbatim>\<open>visit_NoneType\<close> and raises in
  \<^verbatim>\<open>generic_visit\<close>. \<^verbatim>\<open>visit_Assign\<close> reads \<^verbatim>\<open>node.left.value\<close>, then evaluates the right side,
  then stores. The list and dict comprehensions evaluate their elements in order.
\<close>

fun visit :: "symbols \<Rightarrow> AST \<Rightarrow> (error + pyval) \<times> symbols"
  and visit_elements :: "symbols \<Rightarrow> AST list \<Rightarrow> (error + pyval list) \<times> symbols"
  and visit_pairs ::
    "symbols \<Rightarrow> (pyval \<times> AST) list \<Rightarrow> (pyval \<times> pyval) list \<Rightarrow>
       (error + (pyval \<times> pyval) list) \<times> symbols"
  where
  "visit S (BinOp left op right) =
     (case visit S left of
        (Inl e, S1) \<Rightarrow> (Inl e, S1)
      | (Inr l, S1) \<Rightarrow>
          (case visit S1 right of
             (Inl e, S2) \<Rightarrow> (Inl e, S2)
           | (Inr r, S2) \<Rightarrow> (visit_BinOp op l r, S2)))"
| "visit S (Num t) = (Inr (tok_value t), S)"
| "visit S (Var t) = (visit_Var S t, S)"
| "visit S (Assign left op right) =
     (case node_value left of
        Inl e \<Rightarrow> (Inl e, S)
      | Inr var_name \<Rightarrow>
          (case visit S right of
             (Inl e, S1) \<Rightarrow> (Inl e, S1)
           | (Inr v, S1) \<Rightarrow> (Inr v, SymbolTable_set S1 var_name v)))"
| "visit S (ListExpr elements) =
     (case visit_elements S elements of
        (Inl e, S1) \<Rightarrow> (Inl e, S1)
      | (Inr vs, S1) \<Rightarrow> (Inr (PyList vs), S1))"
| "visit S (DictExpr pairs) =
     (case visit_pairs S pairs [] of
        (Inl e, S1) \<Rightarrow> (Inl e, S1)
      | (Inr kvs, S1) \<Rightarrow> (Inr (PyDict kvs), S1))"
| "visit S NoNode = (Inl (NoVisitMethod ''NoneType''), S)"
| "visit_elements S [] = (Inr [], S)"
| "visit_elements S (element # rest) =
     (case visit S element of
        (Inl e, S1) \<Rightarrow> (Inl e, S1)
      | (Inr v, S1) \<Rightarrow>
          (case visit_elements S1 rest of
             (Inl e, S2) \<Rightarrow> (Inl e, S2)
           | (Inr vs, S2) \<Rightarrow> (Inr (v # vs), S2)))"
| "visit_pairs S [] result = (Inr result, S)"
| "visit_pairs S ((key, node) # rest) result =
     (case visit S node of
        (Inl e, S1) \<Rightarrow> (Inl e, S1)
      | (Inr v, S1) \<Rightarrow> visit_pairs S1 rest (dict_set result key v))"

text \<open>
  \<^verbatim>\<open>Interpreter.interpret\<close>: parse, then visit the tree. An exception of the parser leaves
  the symbol table as it was.
\<close>

definition Interpreter_interpret :: "nat \<Rightarrow> Parser \<Rightarrow> symbols \<Rightarrow> ((error + pyval) \<times> symbols) option" where
  "Interpreter_interpret n P S =
     (case parse n P of
        None \<Rightarrow> None
      | Some (Inl e) \<Rightarrow> Some (Inl e, S)
      | Some (Inr (tree, P')) \<Rightarrow> Some (visit S tree))"

text \<open>
  One turn of the loop of \<^verbatim>\<open>main\<close>, from \<^verbatim>\<open>lexer.text = text\<close> to the result of
  \<^verbatim>\<open>interpreter.interpret()\<close>, for an input that is neither blank nor \<^verbatim>\<open>exit\<close>: the lexer gets
  the new text and position 0 (its line and column are not reset), the parser's lookahead
  is read from it, and the statement is interpreted. The \<^verbatim>\<open>except\<close> clause of the loop
  receives every exception, which is the \<^verbatim>\<open>Inl\<close> of the result here.
\<close>

definition main_eval :: "nat \<Rightarrow> Lexer \<Rightarrow> symbols \<Rightarrow> string \<Rightarrow> ((error + pyval) \<times> symbols) option"
  where
  "main_eval n L S src =
     (case get_next_token (L\<lparr>lex_text := src, lex_pos := 0\<rparr>) of
        Inl e \<Rightarrow> Some (Inl e, S)
      | Inr (t, L') \<Rightarrow> Interpreter_interpret n \<lparr>par_lexer = L', current_token = t\<rparr> S)"

section \<open>Properties of the lexer\<close>

lemma current_char_Some_drop:
  "current_char L = Some c \<Longrightarrow> drop (lex_pos L) (lex_text L) = c # drop (Suc (lex_pos L)) (lex_text L)"
  by (auto simp: current_char_def Cons_nth_drop_Suc split: if_splits)

lemma current_char_None_drop:
  "current_char L = None \<Longrightarrow> drop (lex_pos L) (lex_text L) = []"
  by (auto simp: current_char_def split: if_splits)

lemma current_char_drop:
  "current_char L = (case drop (lex_pos L) (lex_text L) of [] \<Rightarrow> None | c # cs \<Rightarrow> Some c)"
  by (auto simp: current_char_def Cons_nth_drop_Suc [symmetric] split: list.splits)

lemma consume_while_run:
  "consume_while p L r = (res, L') \<Longrightarrow>
     res = r @ takeWhile p (drop (lex_pos L) (lex_text L)) \<and>
     lex_pos L' = lex_pos L + length (takeWhile p (drop (lex_pos L) (lex_text L))) \<and>
     lex_text L' = lex_text L \<and>
     lex_line L' = lex_line L
        + int (length (filter (\<lambda>c. c = CHR 0x0A) (takeWhile p (drop (lex_pos L) (lex_text L)))))"
proof (induction p L r arbitrary: res L' rule: consume_while.induct)
  case (1 p L r)
  show ?case
  proof (cases "current_char L")
    case None
    then have "consume_while p L r = (r, L)" by (subst consume_while.simps) simp
    then show ?thesis using "1.prems" current_char_None_drop [OF None] by simp
  next
    case (Some c)
    note d = current_char_Some_drop [OF Some]
    show ?thesis
    proof (cases "p c")
      case True
      then have "consume_while p L r = consume_while p (advance L) (r @ [c])"
        using Some by (subst consume_while.simps) simp
      then have e: "consume_while p (advance L) (r @ [c]) = (res, L')" using "1.prems" by simp
      have ln: "lex_line (advance L) = lex_line L + (if c = CHR 0x0A then 1 else 0)"
        using Some by (simp add: advance_def)
      show ?thesis using "1.IH" [OF Some True e] d True ln by simp
    next
      case False
      then have "consume_while p L r = (r, L)" using Some by (subst consume_while.simps) simp
      then show ?thesis using "1.prems" d False by simp
    qed
  qed
qed


text \<open>The number of line feeds in a text: \<^verbatim>\<open>advance\<close> adds one to \<^verbatim>\<open>line\<close> on each.\<close>

definition newlines :: "string \<Rightarrow> int" where
  "newlines s = int (length (filter (\<lambda>c. c = CHR 0x0A) s))"

lemma takeWhile_all: "x \<notin> set xs \<Longrightarrow> takeWhile (\<lambda>c. c \<noteq> x) xs = xs"
  by (induction xs) auto

lemma takeWhile_split: "x \<notin> set b \<Longrightarrow> takeWhile (\<lambda>c. c \<noteq> x) (b @ x # r) = b"
  by (induction b) auto

text \<open>
  C5. A string literal whose opening quote is not followed by a closing quote before the end
  of the text makes \<^verbatim>\<open>Lexer.string\<close> fail with the unterminated-string error, which carries
  the line reached and the offset of the opening quote (reported as the column). When the
  closing quote is present, the token's value is exactly the characters between the quotes,
  whatever they are (a backslash is an ordinary character), and the lexer is left after the
  closing quote. \<^verbatim>\<open>get_next_token\<close> at a quote is \<^verbatim>\<open>string\<close>.
\<close>

theorem string_unterminated:
  assumes q: "current_char L = Some (CHR 0x22)"
  shows "(CHR 0x22 \<notin> set (drop (Suc (lex_pos L)) (lex_text L)) \<longrightarrow>
            string L = Inl (UnterminatedString
              (lex_line L + newlines (drop (Suc (lex_pos L)) (lex_text L))) (lex_pos L)))
       \<and> (drop (Suc (lex_pos L)) (lex_text L) = body @ CHR 0x22 # rest
              \<and> CHR 0x22 \<notin> set body \<longrightarrow>
            (\<exists>L'. string L =
               Inr (\<lparr>tok_type = STRING, tok_value = PyStr body,
                      tok_line = lex_line L + newlines body, tok_column = int (lex_pos L)\<rparr>, L')
              \<and> lex_text L' = lex_text L
              \<and> lex_pos L' = lex_pos L + length body + 2))
       \<and> get_next_token L = string L"
proof (intro conjI impI)
  let ?A = "advance L"
  let ?rest = "drop (Suc (lex_pos L)) (lex_text L)"
  obtain res L1 where cw: "consume_while (\<lambda>c. c \<noteq> CHR 0x22) ?A [] = (res, L1)"
    by (cases "consume_while (\<lambda>c. c \<noteq> CHR 0x22) ?A []") auto
  have lnA: "lex_line ?A = lex_line L" using q by (simp add: advance_def)
  note run = consume_while_run [OF cw, simplified]
  have lt: "lex_pos L < length (lex_text L)"
    using q by (simp add: current_char_def split: if_splits)
  {
    assume nq: "CHR 0x22 \<notin> set ?rest"
    have tw: "takeWhile (\<lambda>c. c \<noteq> CHR 0x22) ?rest = ?rest" by (rule takeWhile_all [OF nq])
    have "lex_pos L1 = length (lex_text L)" using run tw lt by simp
    then have "current_char L1 = None" using run by (simp add: current_char_def)
    then show "string L = Inl (UnterminatedString (lex_line L + newlines ?rest) (lex_pos L))"
      using cw run tw lnA by (simp add: string_def newlines_def)
  }
  {
    assume h: "?rest = body @ CHR 0x22 # rest \<and> CHR 0x22 \<notin> set body"
    then have tw: "takeWhile (\<lambda>c. c \<noteq> CHR 0x22) ?rest = body"
      using takeWhile_split [of "CHR 0x22" body rest] by simp
    have p1: "lex_pos L1 = Suc (lex_pos L) + length body" using run tw by simp
    have "drop (lex_pos L1) (lex_text L1) = CHR 0x22 # rest"
      using p1 run h by (metis append_eq_conv_conj drop_drop add.commute)
    then have cc: "current_char L1 = Some (CHR 0x22)" by (simp add: current_char_drop)
    have "string L = Inr (\<lparr>tok_type = STRING, tok_value = PyStr body,
                      tok_line = lex_line L + newlines body, tok_column = int (lex_pos L)\<rparr>, advance L1)"
      using cw run tw lnA cc by (simp add: string_def newlines_def advance_def)
    moreover have "lex_text (advance L1) = lex_text L" using run by simp
    moreover have "lex_pos (advance L1) = lex_pos L + length body + 2" using p1 by simp
    ultimately show "\<exists>L'. string L =
               Inr (\<lparr>tok_type = STRING, tok_value = PyStr body,
                      tok_line = lex_line L + newlines body, tok_column = int (lex_pos L)\<rparr>, L')
              \<and> lex_text L' = lex_text L
              \<and> lex_pos L' = lex_pos L + length body + 2" by blast
  }
  show "get_next_token L = string L"
    using q by (subst get_next_token.simps) (simp add: isspace_def isdigit_def)
qed

theorem string_unterminated_witness:
  "string (Lexer_init (CHR 0x22 # ''ab'')) = Inl (UnterminatedString 1 0)
   \<and> (\<exists>L'. string (Lexer_init ([CHR 0x22, CHR ''a'', CHR 0x5C, CHR ''n'', CHR 0x22] @ ''+1'')) =
         Inr (\<lparr>tok_type = STRING, tok_value = PyStr [CHR ''a'', CHR 0x5C, CHR ''n''],
                tok_line = 1, tok_column = 0\<rparr>, L')
         \<and> lex_pos L' = 5)"
proof -
  have q1: "current_char (Lexer_init (CHR 0x22 # ''ab'')) = Some (CHR 0x22)"
    by (simp add: current_char_def Lexer_init_def)
  have q2: "current_char (Lexer_init ([CHR 0x22, CHR ''a'', CHR 0x5C, CHR ''n'', CHR 0x22] @ ''+1''))
      = Some (CHR 0x22)"
    by (simp add: current_char_def Lexer_init_def)
  have a: "string (Lexer_init (CHR 0x22 # ''ab'')) = Inl (UnterminatedString 1 0)"
    using string_unterminated [OF q1, of "[]" "[]"] by (simp add: Lexer_init_def newlines_def)
  have b: "\<exists>L'. string (Lexer_init ([CHR 0x22, CHR ''a'', CHR 0x5C, CHR ''n'', CHR 0x22] @ ''+1'')) =
         Inr (\<lparr>tok_type = STRING, tok_value = PyStr [CHR ''a'', CHR 0x5C, CHR ''n''],
                tok_line = 1, tok_column = 0\<rparr>, L')
         \<and> lex_pos L' = 5"
    using string_unterminated [OF q2, of "[CHR ''a'', CHR 0x5C, CHR ''n'']" "''+1''"]
    by (auto simp: Lexer_init_def newlines_def)
  show ?thesis using a b by blast
qed



lemma not_isdigit_dot [simp]: "\<not> isdigit (CHR ''.'')"
  by (simp add: isdigit_def)

lemma not_isdigit_newline [simp]: "\<not> isdigit (CHR 0x0A)"
  by (simp add: isdigit_def)











lemma skip_comment_token:
  "fst (skip_comment L) = Some tk \<Longrightarrow> tok_type tk = DIV"
  by (auto simp: skip_comment_def Let_def split: if_splits)

lemma single_char_not_EOF:
  "find (\<lambda>(token_type, char). c = char) single_char_tokens = Some (ty, ch) \<Longrightarrow> ty \<noteq> EOF"
  by (auto simp: single_char_tokens_def split: if_splits)

lemma number_not_EOF: "number L = Inr (t, L') \<Longrightarrow> tok_type t \<noteq> EOF"
  by (auto simp: number_def Let_def split: if_splits prod.splits sum.splits)

lemma string_not_EOF: "string L = Inr (t, L') \<Longrightarrow> tok_type t \<noteq> EOF"
  by (auto simp: string_def Let_def split: if_splits prod.splits)

lemma identifier_not_EOF: "tok_type (fst (identifier_tok L)) \<noteq> EOF"
  by (auto simp: identifier_tok_def Let_def split: if_splits prod.splits)

lemma get_next_token_at_end:
  "current_char L = None \<Longrightarrow>
     get_next_token L = Inr (\<lparr>tok_type = EOF, tok_value = PyNone, tok_line = lex_line L,
                               tok_column = lex_column L\<rparr>, L)"
  by (subst get_next_token.simps) simp

lemma get_next_token_EOF:
  "get_next_token L = Inr (t, L') \<Longrightarrow> tok_type t = EOF \<Longrightarrow>
     current_char L' = None \<and>
     t = \<lparr>tok_type = EOF, tok_value = PyNone, tok_line = lex_line L', tok_column = lex_column L'\<rparr>"
proof (induction L rule: get_next_token.induct)
  case (1 L)
  show ?case
  proof (cases "current_char L")
    case None
    then show ?thesis using "1.prems" get_next_token_at_end [OF None] by auto
  next
    case (Some c)
    consider (sp) "isspace c"
      | (sl) "\<not> isspace c" "c = CHR ''/''"
      | (other) "\<not> isspace c" "c \<noteq> CHR ''/''"
      by blast
    then show ?thesis
    proof cases
      case sp
      then have "get_next_token L = get_next_token (skip_whitespace L)"
        using Some by (subst get_next_token.simps) simp
      then show ?thesis using "1.IH"(1) [OF Some sp] "1.prems" by simp
    next
      case sl
      show ?thesis
      proof (cases "fst (skip_comment L)")
        case None
        then have "get_next_token L = get_next_token (snd (skip_comment L))"
          using Some sl by (subst get_next_token.simps) simp
        then show ?thesis using "1.IH"(2) [OF Some sl(1) sl(2) None] "1.prems" by simp
      next
        case (Some tk)
        then have "get_next_token L = Inr (tk, snd (skip_comment L))"
          using \<open>current_char L = Some c\<close> sl by (subst get_next_token.simps) simp
        then show ?thesis using "1.prems" skip_comment_token [OF Some] by auto
      qed
    next
      case other
      have unf: "get_next_token L =
          (if isdigit c \<or> c = CHR ''.'' then number L
           else if c = CHR 0x22 then string L
           else if isalpha c \<or> c = CHR ''_'' then Inr (identifier_tok L)
           else
            (case find (\<lambda>(token_type, char). c = char) single_char_tokens of
               Some (token_type, char) \<Rightarrow>
                 Inr (\<lparr>tok_type = token_type, tok_value = PyStr [char], tok_line = lex_line L,
                        tok_column = lex_column L\<rparr>, advance L)
             | None \<Rightarrow> Inl (InvalidCharacter c (lex_line L) (lex_column L))))"
        using Some other by (subst get_next_token.simps) simp
      have False
        using "1.prems" number_not_EOF [of L t L'] string_not_EOF [of L t L']
          identifier_not_EOF [of L]
        unfolding unf
        by (auto split: if_splits option.splits prod.splits dest: single_char_not_EOF)
      then show ?thesis ..
    qed
  qed
qed

lemma debug_tokens_shape:
  "debug_tokens L acc = Inr toks \<Longrightarrow>
     \<exists>pre t. toks = acc @ pre @ [t] \<and> tok_type t = EOF \<and> (\<forall>x\<in>set pre. tok_type x \<noteq> EOF)"
proof (induction L acc rule: debug_tokens.induct)
  case (1 L tokens)
  show ?case
  proof (cases "get_next_token L")
    case (Inl e)
    then show ?thesis using "1.prems" by (subst (asm) debug_tokens.simps) simp
  next
    case (Inr x)
    obtain token L' where x: "x = (token, L')" by (cases x)
    show ?thesis
    proof (cases "tok_type token = EOF")
      case True
      then have "toks = tokens @ [token]"
        using "1.prems" Inr x by (subst (asm) debug_tokens.simps) simp
      then show ?thesis using True by (intro exI [of _ "[]"] exI [of _ token]) simp
    next
      case False
      then have "debug_tokens L' (tokens @ [token]) = Inr toks"
        using "1.prems" Inr x by (subst (asm) debug_tokens.simps) simp
      from "1.IH" [OF Inr x [symmetric] False this]
      obtain pre t where "toks = (tokens @ [token]) @ pre @ [t]" "tok_type t = EOF"
        "\<forall>x\<in>set pre. tok_type x \<noteq> EOF" by blast
      then show ?thesis using False
        by (intro exI [of _ "token # pre"] exI [of _ t]) simp
    qed
  qed
qed

text \<open>
  C7 (amended). When no call of \<^verbatim>\<open>get_next_token\<close> raises, the tokens collected up to the
  first \<^verbatim>\<open>EOF\<close> token are not empty, end with that \<^verbatim>\<open>EOF\<close> token and hold no other. A call
  that returns \<^verbatim>\<open>EOF\<close> leaves the lexer at the end of its text, and the next call returns
  the same token and the same lexer again.
\<close>

theorem token_stream_ends_with_EOF:
  "(debug_tokens L [] = Inr toks \<longrightarrow>
      toks \<noteq> [] \<and> tok_type (last toks) = EOF \<and> (\<forall>x\<in>set (butlast toks). tok_type x \<noteq> EOF))
   \<and> (get_next_token L = Inr (t, L') \<and> tok_type t = EOF \<longrightarrow>
        current_char L' = None \<and> get_next_token L' = Inr (t, L'))"
proof -
  have A: "toks \<noteq> [] \<and> tok_type (last toks) = EOF \<and> (\<forall>x\<in>set (butlast toks). tok_type x \<noteq> EOF)"
    if "debug_tokens L [] = Inr toks"
  proof -
    from debug_tokens_shape [OF that]
    obtain pre t where "toks = pre @ [t]" "tok_type t = EOF" "\<forall>x\<in>set pre. tok_type x \<noteq> EOF"
      by auto
    then show ?thesis by simp
  qed
  have B: "current_char L' = None \<and> get_next_token L' = Inr (t, L')"
    if h: "get_next_token L = Inr (t, L') \<and> tok_type t = EOF"
  proof -
    have e: "current_char L' = None \<and>
       t = \<lparr>tok_type = EOF, tok_value = PyNone, tok_line = lex_line L', tok_column = lex_column L'\<rparr>"
      using h get_next_token_EOF by blast
    then show ?thesis using get_next_token_at_end [of L'] by simp
  qed
  show ?thesis using A B by blast
qed

theorem token_stream_ends_with_EOF_witness:
  "last (projr (debug_tokens (Lexer_init ''x = 1'') [])) =
      \<lparr>tok_type = EOF, tok_value = PyNone, tok_line = 1, tok_column = 6\<rparr>
   \<and> get_next_token \<lparr>lex_text = ''1 '', lex_pos = 2, lex_line = 1, lex_column = 3\<rparr> =
      Inr (\<lparr>tok_type = EOF, tok_value = PyNone, tok_line = 1, tok_column = 3\<rparr>,
           \<lparr>lex_text = ''1 '', lex_pos = 2, lex_line = 1, lex_column = 3\<rparr>)"
proof -
  let ?toks = "[\<lparr>tok_type = IDENTIFIER, tok_value = PyStr ''x'', tok_line = 1, tok_column = 0\<rparr>,
      \<lparr>tok_type = ASSIGN, tok_value = PyStr ''='', tok_line = 1, tok_column = 3\<rparr>,
      \<lparr>tok_type = INTEGER, tok_value = PyInt 1, tok_line = 1, tok_column = 4\<rparr>,
      \<lparr>tok_type = EOF, tok_value = PyNone, tok_line = 1, tok_column = 6\<rparr>]"
  let ?L1 = "\<lparr>lex_text = ''1 '', lex_pos = 1, lex_line = 1, lex_column = 2\<rparr>"
  let ?L2 = "\<lparr>lex_text = ''1 '', lex_pos = 2, lex_line = 1, lex_column = 3\<rparr>"
  let ?eof = "\<lparr>tok_type = EOF, tok_value = PyNone, tok_line = 1, tok_column = 3\<rparr>"
  have d: "debug_tokens (Lexer_init ''x = 1'') [] = Inr ?toks" by code_simp
  have g: "get_next_token ?L1 = Inr (?eof, ?L2)" by code_simp
  have a: "last (projr (debug_tokens (Lexer_init ''x = 1'') [])) =
      \<lparr>tok_type = EOF, tok_value = PyNone, tok_line = 1, tok_column = 6\<rparr>"
    using token_stream_ends_with_EOF [of "Lexer_init ''x = 1''" ?toks] d by simp
  have b: "get_next_token ?L2 = Inr (?eof, ?L2)"
    using token_stream_ends_with_EOF [of ?L1 "[]" ?eof ?L2] g by simp
  show ?thesis using a b by blast
qed

text \<open>
  C7 as stated fails on a text with a character no rule accepts: \<^verbatim>\<open>get_next_token\<close>
  raises at it (and would on every further call, the lexer being unchanged), so the token
  sequence never reaches an \<^verbatim>\<open>EOF\<close> token.
\<close>

theorem invalid_character_no_EOF:
  "debug_tokens (Lexer_init ''x = $'') [] = Inl (InvalidCharacter (CHR ''$'') 1 5)
   \<and> get_next_token (Lexer_init ''$'') = Inl (InvalidCharacter (CHR ''$'') 1 1)"
  by code_simp


section \<open>Properties of the parser and the interpreter\<close>

text \<open>
  More fuel never changes a result: once a method returns (or raises) with some fuel, it
  does the same with any larger fuel.
\<close>

lemma bind_res_Some_mono:
  assumes "bind_res m f = Some r"
    and "\<And>x. m = Some (Inr x) \<Longrightarrow> f x = Some r \<Longrightarrow> f' x = Some r"
  shows "bind_res m f' = Some r"
  using assms by (auto simp: bind_res_def split: option.splits sum.splits)

lemma bind_res_Some_mono2:
  assumes "bind_res m f = Some r"
    and "\<And>y. m = Some y \<Longrightarrow> m' = Some y"
    and "\<And>x. m = Some (Inr x) \<Longrightarrow> f x = Some r \<Longrightarrow> f' x = Some r"
  shows "bind_res m' f' = Some r"
  using assms by (auto simp: bind_res_def split: option.splits sum.splits)

lemma factor_body_mono:
  assumes e: "\<And>P r. e P = Some r \<Longrightarrow> e' P = Some r"
    and l: "\<And>P x r. l P x = Some r \<Longrightarrow> l' P x = Some r"
    and d: "\<And>P x r. d P x = Some r \<Longrightarrow> d' P x = Some r"
    and h: "factor_body e l d P = Some r"
  shows "factor_body e' l' d' P = Some r"
  using h unfolding factor_body_def Let_def
  by (auto split: if_splits
        elim!: bind_res_Some_mono bind_res_Some_mono2 [where m' = "e' _"]
               bind_res_Some_mono2 [where m' = "l' _ _"] bind_res_Some_mono2 [where m' = "d' _ _"]
        intro: e l d)

lemma list_loop_body_mono:
  assumes e: "\<And>P r. e P = Some r \<Longrightarrow> e' P = Some r"
    and l: "\<And>P x r. l P x = Some r \<Longrightarrow> l' P x = Some r"
    and h: "list_loop_body e l P x = Some r"
  shows "list_loop_body e' l' P x = Some r"
  using h unfolding list_loop_body_def
  by (auto split: if_splits
        elim!: bind_res_Some_mono bind_res_Some_mono2 [where m' = "e' _"]
        intro: e l)

lemma dict_loop_body_mono:
  assumes e: "\<And>P r. e P = Some r \<Longrightarrow> e' P = Some r"
    and l: "\<And>P x r. l P x = Some r \<Longrightarrow> l' P x = Some r"
    and h: "dict_loop_body e l P x = Some r"
  shows "dict_loop_body e' l' P x = Some r"
  using h unfolding dict_loop_body_def
  by (auto split: if_splits
        elim!: bind_res_Some_mono bind_res_Some_mono2 [where m' = "e' _"]
        intro: e l)

lemma binop_loop_body_mono:
  assumes e: "\<And>P r. e P = Some r \<Longrightarrow> e' P = Some r"
    and l: "\<And>P x r. l P x = Some r \<Longrightarrow> l' P x = Some r"
    and h: "binop_loop_body ops e l P x = Some r"
  shows "binop_loop_body ops e' l' P x = Some r"
  using h unfolding binop_loop_body_def Let_def
  by (auto split: if_splits
        elim!: bind_res_Some_mono bind_res_Some_mono2 [where m' = "e' _"]
        intro: e l)

lemmas parser_simps =
  factor.simps list_loop.simps dict_loop.simps term_loop.simps term_0 term_Suc expr_loop.simps
  expr.simps

declare parser_simps [simp del]

lemma fuel_Suc:
  "(\<forall>P r. factor n P = Some r \<longrightarrow> factor (Suc n) P = Some r) \<and>
   (\<forall>P x r. list_loop n P x = Some r \<longrightarrow> list_loop (Suc n) P x = Some r) \<and>
   (\<forall>P x r. dict_loop n P x = Some r \<longrightarrow> dict_loop (Suc n) P x = Some r) \<and>
   (\<forall>P x r. term_loop n P x = Some r \<longrightarrow> term_loop (Suc n) P x = Some r) \<and>
   (\<forall>P r. term n P = Some r \<longrightarrow> term (Suc n) P = Some r) \<and>
   (\<forall>P x r. expr_loop n P x = Some r \<longrightarrow> expr_loop (Suc n) P x = Some r) \<and>
   (\<forall>P r. expr n P = Some r \<longrightarrow> expr (Suc n) P = Some r)"
proof (induction n)
  case 0
  show ?case by (simp add: parser_simps)
next
  case (Suc n)
  then have f: "\<And>P r. factor n P = Some r \<Longrightarrow> factor (Suc n) P = Some r"
    and l: "\<And>P x r. list_loop n P x = Some r \<Longrightarrow> list_loop (Suc n) P x = Some r"
    and d: "\<And>P x r. dict_loop n P x = Some r \<Longrightarrow> dict_loop (Suc n) P x = Some r"
    and tl: "\<And>P x r. term_loop n P x = Some r \<Longrightarrow> term_loop (Suc n) P x = Some r"
    and t: "\<And>P r. term n P = Some r \<Longrightarrow> term (Suc n) P = Some r"
    and el: "\<And>P x r. expr_loop n P x = Some r \<Longrightarrow> expr_loop (Suc n) P x = Some r"
    and e: "\<And>P r. expr n P = Some r \<Longrightarrow> expr (Suc n) P = Some r"
    by blast+
  have 1: "factor (Suc (Suc n)) P = Some r" if "factor (Suc n) P = Some r" for P r
    using that factor_body_mono [of "expr n" "expr (Suc n)" "list_loop n" "list_loop (Suc n)"
        "dict_loop n" "dict_loop (Suc n)" P r] e l d
    by (simp add: factor.simps)
  have 2: "list_loop (Suc (Suc n)) P x = Some r" if "list_loop (Suc n) P x = Some r" for P x r
    using that list_loop_body_mono [of "expr n" "expr (Suc n)" "list_loop n" "list_loop (Suc n)" P x r]
      e l
    by (simp add: list_loop.simps)
  have 3: "dict_loop (Suc (Suc n)) P x = Some r" if "dict_loop (Suc n) P x = Some r" for P x r
    using that dict_loop_body_mono [of "expr n" "expr (Suc n)" "dict_loop n" "dict_loop (Suc n)" P x r]
      e d
    by (simp add: dict_loop.simps)
  have 4: "term_loop (Suc (Suc n)) P x = Some r" if "term_loop (Suc n) P x = Some r" for P x r
    using that binop_loop_body_mono [of "factor n" "factor (Suc n)" "term_loop n" "term_loop (Suc n)"
        "{MUL, DIV}" P x r] f tl
    by (simp add: term_loop.simps)
  have 5: "term (Suc (Suc n)) P = Some r" if "term (Suc n) P = Some r" for P r
  proof -
    have "bind_res (factor n P) (\<lambda>(node, P1). term_loop n P1 node) = Some r"
      using that by (simp add: term_Suc)
    then have "bind_res (factor (Suc n) P) (\<lambda>(node, P1). term_loop (Suc n) P1 node) = Some r"
      by (rule bind_res_Some_mono2) (auto intro: f tl)
    then show ?thesis by (simp add: term_Suc)
  qed
  have 6: "expr_loop (Suc (Suc n)) P x = Some r" if "expr_loop (Suc n) P x = Some r" for P x r
    using that binop_loop_body_mono [of "term n" "term (Suc n)" "expr_loop n" "expr_loop (Suc n)"
        "{PLUS, MINUS, DIV}" P x r] t el
    by (simp add: expr_loop.simps)
  have 7: "expr (Suc (Suc n)) P = Some r" if "expr (Suc n) P = Some r" for P r
  proof -
    have "bind_res (term n P) (\<lambda>(node, P1). expr_loop n P1 node) = Some r"
      using that by (simp add: expr.simps)
    then have "bind_res (term (Suc n) P) (\<lambda>(node, P1). expr_loop (Suc n) P1 node) = Some r"
      by (rule bind_res_Some_mono2) (auto intro: t el)
    then show ?thesis by (simp add: expr.simps)
  qed
  show ?case using 1 2 3 4 5 6 7 by blast
qed

lemma expr_fuel_mono: "expr n P = Some r \<Longrightarrow> expr (n + k) P = Some r"
  by (induction k) (auto dest: fuel_Suc [THEN conjunct2, THEN conjunct2, THEN conjunct2,
        THEN conjunct2, THEN conjunct2, THEN conjunct2, rule_format])

lemma parse_fuel_mono: "parse n P = Some r \<Longrightarrow> parse (n + k) P = Some r"
  unfolding parse_def assignment_def
  by (erule bind_res_Some_mono2)
     (auto simp: Let_def split: if_splits intro: expr_fuel_mono
           elim!: bind_res_Some_mono bind_res_Some_mono2 [where m' = "expr _ _"])

lemma interpret_fuel_mono:
  "Interpreter_interpret n P S = Some r \<Longrightarrow> Interpreter_interpret (n + k) P S = Some r"
  unfolding Interpreter_interpret_def
  by (auto split: option.splits sum.splits dest: parse_fuel_mono [where k = k])

lemma main_eval_fuel_mono:
  "main_eval n L S src = Some r \<Longrightarrow> main_eval (n + k) L S src = Some r"
  unfolding main_eval_def
  by (auto split: sum.splits dest: interpret_fuel_mono [where k = k])

lemma main_eval_fst_mono:
  "map_option fst (main_eval n L S src) = Some v \<Longrightarrow>
     map_option fst (main_eval (n + k) L S src) = Some v"
  by (auto dest: main_eval_fuel_mono [where k = k])


text \<open>
  C10. At a token that begins none of its alternatives, \<^verbatim>\<open>Parser.factor\<close> returns \<^verbatim>\<open>None\<close>,
  raises nothing and consumes nothing. So parsing \<^verbatim>\<open>1 +\<close> returns a \<^verbatim>\<open>BinOp\<close> whose right
  child is \<^verbatim>\<open>None\<close>, and the failure only comes from the interpreter, which has no method
  for \<^verbatim>\<open>NoneType\<close>.
\<close>

theorem factor_returns_None:
  "(tok_type (current_token P) \<notin>
      {INTEGER, FLOAT, STRING, BOOLEAN, IDENTIFIER, LPAREN, LBRACKET, LBRACE} \<longrightarrow>
      factor (Suc n) P = Some (Inr (NoNode, P)))
   \<and> map_option (map_sum id fst) (parse (10 + k) (projr (Parser_init (Lexer_init ''1 +'')))) =
       Some (Inr (BinOp
         (Num \<lparr>tok_type = INTEGER, tok_value = PyInt 1, tok_line = 1, tok_column = 0\<rparr>)
         \<lparr>tok_type = PLUS, tok_value = PyStr ''+'', tok_line = 1, tok_column = 3\<rparr>
         NoNode))
   \<and> map_option fst (main_eval (10 + k) (Lexer_init []) S ''1 +'') =
       Some (Inl (NoVisitMethod ''NoneType''))"
proof -
  have a: "tok_type (current_token P) \<notin>
      {INTEGER, FLOAT, STRING, BOOLEAN, IDENTIFIER, LPAREN, LBRACKET, LBRACE} \<longrightarrow>
      factor (Suc n) P = Some (Inr (NoNode, P))"
    by (simp add: factor.simps factor_body_def Let_def)
  have "map_option (map_sum id fst) (parse 10 (projr (Parser_init (Lexer_init ''1 +'')))) =
       Some (Inr (BinOp
         (Num \<lparr>tok_type = INTEGER, tok_value = PyInt 1, tok_line = 1, tok_column = 0\<rparr>)
         \<lparr>tok_type = PLUS, tok_value = PyStr ''+'', tok_line = 1, tok_column = 3\<rparr>
         NoNode))"
    by code_simp
  then have b: "map_option (map_sum id fst) (parse (10 + k) (projr (Parser_init (Lexer_init ''1 +'')))) =
       Some (Inr (BinOp
         (Num \<lparr>tok_type = INTEGER, tok_value = PyInt 1, tok_line = 1, tok_column = 0\<rparr>)
         \<lparr>tok_type = PLUS, tok_value = PyStr ''+'', tok_line = 1, tok_column = 3\<rparr>
         NoNode))"
    by (auto dest: parse_fuel_mono [where k = k])
  have "map_option fst (main_eval 10 (Lexer_init []) S ''1 +'') =
       Some (Inl (NoVisitMethod ''NoneType''))"
    by code_simp
  then have c: "map_option fst (main_eval (10 + k) (Lexer_init []) S ''1 +'') =
       Some (Inl (NoVisitMethod ''NoneType''))"
    by (rule main_eval_fst_mono)
  show ?thesis using a b c by blast
qed

theorem factor_returns_None_witness:
  "factor 1 \<lparr>par_lexer = \<lparr>lex_text = '')'', lex_pos = 1, lex_line = 1, lex_column = 2\<rparr>,
             current_token = \<lparr>tok_type = RPAREN, tok_value = PyStr '')'', tok_line = 1,
                               tok_column = 1\<rparr>\<rparr>
     = Some (Inr (NoNode,
         \<lparr>par_lexer = \<lparr>lex_text = '')'', lex_pos = 1, lex_line = 1, lex_column = 2\<rparr>,
            current_token = \<lparr>tok_type = RPAREN, tok_value = PyStr '')'', tok_line = 1,
                              tok_column = 1\<rparr>\<rparr>))"
  using factor_returns_None
    [of "\<lparr>par_lexer = \<lparr>lex_text = '')'', lex_pos = 1, lex_line = 1, lex_column = 2\<rparr>,
             current_token = \<lparr>tok_type = RPAREN, tok_value = PyStr '')'', tok_line = 1,
                               tok_column = 1\<rparr>\<rparr>" 0]
  by simp

text \<open>
  C6. Evaluating a \<^verbatim>\<open>Var\<close> whose name the symbol table does not bind fails with
  \<^verbatim>\<open>NameError\<close> for that name and leaves the table as it is; interpreting \<^verbatim>\<open>y\<close> in the
  empty table fails with \<^verbatim>\<open>NameError\<close> for \<^verbatim>\<open>y\<close>.
\<close>

theorem undefined_name:
  "(S (tok_value t) = None \<longrightarrow> visit S (Var t) = (Inl (NameError (tok_value t)), S))
   \<and> map_option fst (main_eval (10 + k) (Lexer_init []) Map.empty ''y'') =
       Some (Inl (NameError (PyStr ''y'')))"
proof -
  have a: "S (tok_value t) = None \<longrightarrow> visit S (Var t) = (Inl (NameError (tok_value t)), S)"
    by (simp add: visit_Var_def SymbolTable_get_def)
  have "map_option fst (main_eval 10 (Lexer_init []) Map.empty ''y'') =
       Some (Inl (NameError (PyStr ''y'')))"
    by code_simp
  then have b: "map_option fst (main_eval (10 + k) (Lexer_init []) Map.empty ''y'') =
       Some (Inl (NameError (PyStr ''y'')))"
    by (rule main_eval_fst_mono)
  show ?thesis using a b by blast
qed

theorem undefined_name_witness:
  "visit (Map.empty(PyStr ''x'' \<mapsto> PyInt 5))
     (Var \<lparr>tok_type = IDENTIFIER, tok_value = PyStr ''y'', tok_line = 1, tok_column = 0\<rparr>)
   = (Inl (NameError (PyStr ''y'')), Map.empty(PyStr ''x'' \<mapsto> PyInt 5))"
  using undefined_name [of "Map.empty(PyStr ''x'' \<mapsto> PyInt 5)"
      "\<lparr>tok_type = IDENTIFIER, tok_value = PyStr ''y'', tok_line = 1, tok_column = 0\<rparr>"]
  by simp

text \<open>
  C2. When both operands of a \<^verbatim>\<open>BinOp\<close> evaluate to numbers, the right one to zero, and the
  operator is \<^verbatim>\<open>/\<close>, the evaluation fails with \<^verbatim>\<open>ZeroDivisionError\<close> and returns no value;
  interpreting \<^verbatim>\<open>1 / 0\<close> fails so.
\<close>

theorem division_by_zero:
  "(visit S left = (Inr l, S1) \<and> visit S1 right = (Inr r, S2) \<and> is_number l \<and> is_number r
      \<and> num_of r = Some 0 \<and> tok_type op = DIV \<longrightarrow>
      visit S (BinOp left op right) = (Inl ZeroDivisionError, S2))
   \<and> map_option fst (main_eval (10 + k) (Lexer_init []) S ''1 / 0'') = Some (Inl ZeroDivisionError)"
proof -
  have a: "visit S left = (Inr l, S1) \<and> visit S1 right = (Inr r, S2) \<and> is_number l \<and> is_number r
      \<and> num_of r = Some 0 \<and> tok_type op = DIV \<longrightarrow>
      visit S (BinOp left op right) = (Inl ZeroDivisionError, S2)"
    by (simp add: visit_BinOp_def)
  have "map_option fst (main_eval 10 (Lexer_init []) S ''1 / 0'') = Some (Inl ZeroDivisionError)"
    by code_simp
  then have b: "map_option fst (main_eval (10 + k) (Lexer_init []) S ''1 / 0'') =
      Some (Inl ZeroDivisionError)"
    by (rule main_eval_fst_mono)
  show ?thesis using a b by blast
qed

theorem division_by_zero_witness:
  "visit Map.empty
     (BinOp (Num \<lparr>tok_type = FLOAT, tok_value = PyFloat 2.5, tok_line = 1, tok_column = 0\<rparr>)
            \<lparr>tok_type = DIV, tok_value = PyStr ''/'', tok_line = 1, tok_column = 4\<rparr>
            (Num \<lparr>tok_type = FLOAT, tok_value = PyFloat 0, tok_line = 1, tok_column = 6\<rparr>))
   = (Inl ZeroDivisionError, Map.empty)"
  using division_by_zero [of Map.empty
      "Num \<lparr>tok_type = FLOAT, tok_value = PyFloat 2.5, tok_line = 1, tok_column = 0\<rparr>"
      "PyFloat 2.5" Map.empty
      "Num \<lparr>tok_type = FLOAT, tok_value = PyFloat 0, tok_line = 1, tok_column = 6\<rparr>"
      "PyFloat 0" Map.empty
      "\<lparr>tok_type = DIV, tok_value = PyStr ''/'', tok_line = 1, tok_column = 4\<rparr>"]
  by simp






end
